theory Spec2Isabelle
  imports Main "HOL-Library.Word"
begin

unbundle bit_operations_syntax

section \<open>The machine: bytes, mappings, faults\<close>

text \<open>
  The free-list allocator of \<^verbatim>\<open>free_list_allocator.h\<close> works on raw memory obtained
  from \<^verbatim>\<open>mmap\<close>: block and pool headers are read and written through
  \<^verbatim>\<open>reinterpret_cast\<close> pointers, at addresses that need not be aligned
  (\<^verbatim>\<open>allocated + size\<close>). The model is therefore a byte-addressed store.

  Platform: LP64 (the header includes \<^verbatim>\<open>sys/mman.h\<close> and \<^verbatim>\<open>unistd.h\<close>), so a pointer
  and a \<^verbatim>\<open>size_t\<close> are 64-bit words, little-endian in memory; pointer and
  \<^verbatim>\<open>size_t\<close> arithmetic wrap modulo \<open>2 ^ 64\<close>.
  \<^verbatim>\<open>struct Block { Block *next; size_t size; }\<close> has \<^verbatim>\<open>next\<close> at offset 0 and
  \<^verbatim>\<open>size\<close> at offset 8; \<^verbatim>\<open>FreeListMemoryPool\<close> has \<^verbatim>\<open>nextPool\<close> at offset 0 and
  \<^verbatim>\<open>freeListHead_\<close> at offset 8; both are 16 bytes long.
\<close>

type_synonym addr = "64 word"
type_synonym size_t = "64 word"
type_synonym byte = "8 word"

text \<open>
  \<open>SegFault\<close>: an access to an address that is not mapped.
  \<open>BadAlloc\<close>: the \<^verbatim>\<open>std::bad_alloc\<close> thrown by the allocator's constructor.
\<close>

datatype fault = SegFault | BadAlloc

text \<open>
  The address space: the contents of every byte and the list of mapped regions
  (base, length), the most recent mapping first.
\<close>

record heap =
  mem :: "addr \<Rightarrow> byte"
  regions :: "(addr \<times> size_t) list"

definition in_region :: "addr \<Rightarrow> addr \<times> size_t \<Rightarrow> bool" where
  "in_region a r = (a - fst r < snd r)"

definition mapped :: "heap \<Rightarrow> addr \<Rightarrow> bool" where
  "mapped h a = list_ex (in_region a) (regions h)"

definition mapped8 :: "heap \<Rightarrow> addr \<Rightarrow> bool" where
  "mapped8 h a =
     (mapped h a \<and> mapped h (a + 1) \<and> mapped h (a + 2) \<and> mapped h (a + 3) \<and>
      mapped h (a + 4) \<and> mapped h (a + 5) \<and> mapped h (a + 6) \<and> mapped h (a + 7))"

text \<open>The eight bytes at \<open>a .. a + 7\<close> read as a little-endian 64-bit word.\<close>

definition le64 :: "(addr \<Rightarrow> byte) \<Rightarrow> addr \<Rightarrow> 64 word" where
  "le64 m a =
     ucast (m a) OR push_bit 8 (ucast (m (a + 1))) OR push_bit 16 (ucast (m (a + 2))) OR
     push_bit 24 (ucast (m (a + 3))) OR push_bit 32 (ucast (m (a + 4))) OR
     push_bit 40 (ucast (m (a + 5))) OR push_bit 48 (ucast (m (a + 6))) OR
     push_bit 56 (ucast (m (a + 7)))"

text \<open>Byte \<open>x - a\<close> of \<open>v\<close> is stored at \<open>x\<close>, for \<open>x\<close> in \<open>a .. a + 7\<close>.\<close>

definition put64 :: "(addr \<Rightarrow> byte) \<Rightarrow> addr \<Rightarrow> 64 word \<Rightarrow> (addr \<Rightarrow> byte)" where
  "put64 m a v = (\<lambda>x. if x - a < 8 then ucast (drop_bit (8 * unat (x - a)) v) else m x)"

text \<open>
  A pointer-sized or \<^verbatim>\<open>size_t\<close> read and write: \<open>peek\<close> and \<open>poke\<close> are the
  accesses themselves, \<open>load64\<close> and \<open>store64\<close> fault on unmapped memory.
\<close>

definition peek :: "heap \<Rightarrow> addr \<Rightarrow> 64 word" where
  "peek h a = le64 (mem h) a"

definition poke :: "heap \<Rightarrow> addr \<Rightarrow> 64 word \<Rightarrow> heap" where
  "poke h a v = h\<lparr>mem := put64 (mem h) a v\<rparr>"

definition load64 :: "heap \<Rightarrow> addr \<Rightarrow> fault + 64 word" where
  "load64 h a = (if mapped8 h a then Inr (peek h a) else Inl SegFault)"

definition store64 :: "heap \<Rightarrow> addr \<Rightarrow> 64 word \<Rightarrow> fault + heap" where
  "store64 h a v = (if mapped8 h a then Inr (poke h a v) else Inl SegFault)"

text \<open>Sequencing: the first fault ends the computation.\<close>

definition and_then :: "fault + 'a \<Rightarrow> ('a \<Rightarrow> fault + 'b) \<Rightarrow> fault + 'b" where
  "and_then r k = (case r of Inl f \<Rightarrow> Inl f | Inr x \<Rightarrow> k x)"

subsection \<open>mmap\<close>

text \<open>
  \<^verbatim>\<open>mmap(NULL, len, PROT_READ | PROT_WRITE, MAP_PRIVATE | MAP_ANONYMOUS, -1, 0)\<close>.
  Where the new region lies is the kernel's choice, so the kernel's answer is a
  parameter: \<open>None\<close> when it refuses, \<open>Some b\<close> when it offers the region at \<open>b\<close>.
  A kernel only hands out a region that is not empty, lies above the lowest mappable
  address, does not wrap around the address space and overlaps no existing mapping;
  any other answer counts as a refusal. A refusal returns \<^verbatim>\<open>MAP_FAILED\<close>, which is
  \<^verbatim>\<open>(void *) -1\<close>. An anonymous mapping is zero-filled.
\<close>

definition MAP_FAILED :: addr where
  "MAP_FAILED = - 1"

definition mmap_min_addr :: int where
  "mmap_min_addr = 65536"

definition apart :: "addr \<Rightarrow> size_t \<Rightarrow> addr \<times> size_t \<Rightarrow> bool" where
  "apart b len r = (uint b + uint len \<le> uint (fst r) \<or> uint (fst r) + uint (snd r) \<le> uint b)"

definition region_free :: "heap \<Rightarrow> addr \<Rightarrow> size_t \<Rightarrow> bool" where
  "region_free h b len =
     (len \<noteq> 0 \<and> mmap_min_addr \<le> uint b \<and> uint b + uint len \<le> 2 ^ 64 \<and>
      list_all (apart b len) (regions h))"

definition zero_fill :: "(addr \<Rightarrow> byte) \<Rightarrow> addr \<Rightarrow> size_t \<Rightarrow> (addr \<Rightarrow> byte)" where
  "zero_fill m b len = (\<lambda>x. if x - b < len then 0 else m x)"

definition map_region :: "heap \<Rightarrow> addr \<Rightarrow> size_t \<Rightarrow> heap" where
  "map_region h b len = h\<lparr>mem := zero_fill (mem h) b len, regions := (b, len) # regions h\<rparr>"

definition mmap :: "addr option \<Rightarrow> heap \<Rightarrow> size_t \<Rightarrow> addr \<times> heap" where
  "mmap answer h len =
     (case answer of
        None \<Rightarrow> (MAP_FAILED, h)
      | Some b \<Rightarrow>
          if region_free h b len then (b, map_region h b len) else (MAP_FAILED, h))"

text \<open>
  The kernel as the allocator sees it: its answer to the next \<^verbatim>\<open>mmap\<close> call, given
  how many mappings exist.
\<close>

type_synonym kernel = "nat \<Rightarrow> addr option"

section \<open>FreeListAllocator\<close>

text \<open>
  \<^verbatim>\<open>template <size_t ONE_MEM_POOL_SIZE> class FreeListAllocator\<close>: the template
  argument and the value of \<^verbatim>\<open>getpagesize()\<close> are the configuration.
\<close>

record config =
  pagesize :: size_t
  ONE_MEM_POOL_SIZE :: size_t

definition nullptr :: addr where
  "nullptr = 0"

definition sizeof_Block :: size_t where
  "sizeof_Block = 16"

definition sizeof_FreeListMemoryPool :: size_t where
  "sizeof_FreeListMemoryPool = 16"

text \<open>\<^verbatim>\<open>static constexpr Block *OCCUPIED_BLOCK = nullptr;\<close>\<close>

definition OCCUPIED_BLOCK :: addr where
  "OCCUPIED_BLOCK = nullptr"

text \<open>Field addresses.\<close>

definition Block_next :: "addr \<Rightarrow> addr" where
  "Block_next block = block"

definition Block_size :: "addr \<Rightarrow> addr" where
  "Block_size block = block + 8"

definition nextPool :: "addr \<Rightarrow> addr" where
  "nextPool pool = pool"

definition freeListHead :: "addr \<Rightarrow> addr" where
  "freeListHead pool = pool + 8"

text \<open>
  \<^verbatim>\<open>CalculateCapacity\<close>, in \<^verbatim>\<open>size_t\<close> arithmetic:
  \<^verbatim>\<open>
    size_t psize = getpagesize();
    size_t cap = psize * (1 + ONE_MEM_POOL_SIZE / psize);
    if (ONE_MEM_POOL_SIZE % psize == 0) { cap -= psize; }
    return cap;
  \<close>
\<close>

definition CalculateCapacity :: "config \<Rightarrow> size_t" where
  "CalculateCapacity cfg =
     (let psize = pagesize cfg;
          cap = psize * (1 + ONE_MEM_POOL_SIZE cfg div psize)
      in if ONE_MEM_POOL_SIZE cfg mod psize = 0 then cap - psize else cap)"

subsection \<open>FreeListMemoryPool\<close>

text \<open>
  The constructor, run on the object at \<open>this\<close>. The default member initialisers come
  first: \<^verbatim>\<open>nextPool = nullptr\<close> and
  \<^verbatim>\<open>freeListHead_ = reinterpret_cast<Block *>(this + sizeof(FreeListMemoryPool))\<close>,
  where \<^verbatim>\<open>this\<close> is a \<^verbatim>\<open>FreeListMemoryPool *\<close>, so the sum advances by
  \<^verbatim>\<open>sizeof(FreeListMemoryPool)\<close> objects of \<^verbatim>\<open>sizeof(FreeListMemoryPool)\<close> bytes each.
  Then the body:
  \<^verbatim>\<open>
    freeListHead_->size = CalculateCapacity() - sizeof(FreeListMemoryPool);
    freeListHead_->next = freeListHead_ + 1;
  \<close>
  where \<^verbatim>\<open>freeListHead_ + 1\<close> advances a \<^verbatim>\<open>Block *\<close> by one \<^verbatim>\<open>Block\<close>.
\<close>

definition FreeListMemoryPool :: "config \<Rightarrow> heap \<Rightarrow> addr \<Rightarrow> fault + heap" where
  "FreeListMemoryPool cfg h this =
     and_then (store64 h (nextPool this) nullptr) (\<lambda>h1.
     and_then (store64 h1 (freeListHead this)
                 (this + sizeof_FreeListMemoryPool * sizeof_FreeListMemoryPool)) (\<lambda>h2.
     and_then (load64 h2 (freeListHead this)) (\<lambda>head.
     and_then (store64 h2 (Block_size head)
                 (CalculateCapacity cfg - sizeof_FreeListMemoryPool)) (\<lambda>h3.
     and_then (load64 h3 (freeListHead this)) (\<lambda>head'.
     and_then (load64 h3 (freeListHead this)) (\<lambda>head''.
     store64 h3 (Block_next head') (head'' + sizeof_Block)))))))"

text \<open>
  The search loop of \<^verbatim>\<open>Allocate\<close>:
  \<^verbatim>\<open>
    while (block && block->size + sizeof(Block) < size) {
        prevBlock = block;
        block = block->next;
    }
  \<close>
  It returns \<^verbatim>\<open>prevBlock\<close> and \<^verbatim>\<open>block\<close> as they are when the loop ends. On a cyclic
  list with no fitting block it does not end: the result is then \<open>None\<close>.
\<close>

partial_function (option) Allocate_search ::
  "heap \<Rightarrow> size_t \<Rightarrow> addr \<Rightarrow> addr \<Rightarrow> (fault + addr \<times> addr) option" where
  "Allocate_search h sz prevBlock block =
     (if block = nullptr then Some (Inr (prevBlock, block))
      else case load64 h (Block_size block) of
        Inl f \<Rightarrow> Some (Inl f)
      | Inr bsize \<Rightarrow>
          if bsize + sizeof_Block < sz
          then (case load64 h (Block_next block) of
                  Inl f \<Rightarrow> Some (Inl f)
                | Inr nxt \<Rightarrow> Allocate_search h sz block nxt)
          else Some (Inr (prevBlock, block)))"

text \<open>
  What \<^verbatim>\<open>Allocate\<close> does once the loop has ended with \<^verbatim>\<open>prevBlock\<close> and \<^verbatim>\<open>block\<close>:
  \<^verbatim>\<open>
    if (block == nullptr) { return nullptr; }
    auto allocated = reinterpret_cast<char *>(block) + sizeof(Block);
    Block *nextFreeBlock = block->next;
    if (block->size < size + sizeof(Block)) {
        nextFreeBlock = reinterpret_cast<Block *>(allocated + size);
        nextFreeBlock->size = block->size - size - sizeof(Block);
        nextFreeBlock->next = block->next;
    }
    if (prevBlock) { prevBlock->next = nextFreeBlock; }
    if (freeListHead_ == block) { freeListHead_ = nextFreeBlock; }
    block->next = OCCUPIED_BLOCK;
    block->size = size + sizeof(Block);
    return allocated;
  \<close>
  Every field access is a read or write of memory in the order of the source. The
  three definitions are the split (the first \<^verbatim>\<open>if\<close>), the relinking and marking
  (from \<^verbatim>\<open>if (prevBlock)\<close> on), and the whole. The parameter \<^verbatim>\<open>size\<close> is written
  \<open>sz\<close>.
\<close>

definition Allocate_split ::
  "heap \<Rightarrow> size_t \<Rightarrow> addr \<Rightarrow> addr \<Rightarrow> fault + addr \<times> heap" where
  "Allocate_split h sz block allocated =
     and_then (load64 h (Block_next block)) (\<lambda>nextFreeBlock.
     and_then (load64 h (Block_size block)) (\<lambda>bsize.
       if bsize < sz + sizeof_Block
       then (let nextFreeBlock' = allocated + sz in
             and_then (load64 h (Block_size block)) (\<lambda>bsize'.
             and_then (store64 h (Block_size nextFreeBlock') (bsize' - sz - sizeof_Block)) (\<lambda>h1.
             and_then (load64 h1 (Block_next block)) (\<lambda>bnext.
             and_then (store64 h1 (Block_next nextFreeBlock') bnext) (\<lambda>h2.
             Inr (nextFreeBlock', h2))))))
       else Inr (nextFreeBlock, h)))"

definition Allocate_unlink ::
  "heap \<Rightarrow> addr \<Rightarrow> size_t \<Rightarrow> addr \<Rightarrow> addr \<Rightarrow> addr \<Rightarrow> fault + heap" where
  "Allocate_unlink h this sz prevBlock block nextFreeBlock =
     and_then (if prevBlock \<noteq> nullptr then store64 h (Block_next prevBlock) nextFreeBlock
               else Inr h) (\<lambda>h1.
     and_then (load64 h1 (freeListHead this)) (\<lambda>head.
     and_then (if head = block then store64 h1 (freeListHead this) nextFreeBlock
               else Inr h1) (\<lambda>h2.
     and_then (store64 h2 (Block_next block) OCCUPIED_BLOCK) (\<lambda>h3.
     store64 h3 (Block_size block) (sz + sizeof_Block)))))"

definition Allocate_found ::
  "heap \<Rightarrow> addr \<Rightarrow> size_t \<Rightarrow> addr \<Rightarrow> addr \<Rightarrow> fault + addr \<times> heap" where
  "Allocate_found h this sz prevBlock block =
     (if block = nullptr then Inr (nullptr, h)
      else let allocated = block + sizeof_Block in
        and_then (Allocate_split h sz block allocated) (\<lambda>(nextFreeBlock, h1).
        and_then (Allocate_unlink h1 this sz prevBlock block nextFreeBlock) (\<lambda>h2.
        Inr (allocated, h2))))"

text \<open>
  \<^verbatim>\<open>char *FreeListMemoryPool::Allocate(size_t size)\<close>:
  \<^verbatim>\<open>Block *prevBlock = nullptr; Block *block = freeListHead_;\<close>, the loop, the rest.
\<close>

definition Pool_Allocate :: "heap \<Rightarrow> addr \<Rightarrow> size_t \<Rightarrow> (fault + addr \<times> heap) option" where
  "Pool_Allocate h this sz =
     (case load64 h (freeListHead this) of
        Inl f \<Rightarrow> Some (Inl f)
      | Inr head \<Rightarrow>
          (case Allocate_search h sz nullptr head of
             None \<Rightarrow> None
           | Some (Inl f) \<Rightarrow> Some (Inl f)
           | Some (Inr (prevBlock, block)) \<Rightarrow>
               Some (Allocate_found h this sz prevBlock block)))"

text \<open>
  \<^verbatim>\<open>
    bool VerifyPtr(const void *ptr) const noexcept {
        if (ptr == nullptr) { return false; }
        auto block = reinterpret_cast<const Block *>(ptr);
        if (block->next != OCCUPIED_BLOCK) { return false; }
        auto base = reinterpret_cast<const char *>(this);
        return this <= ptr &&
               reinterpret_cast<const char *>(ptr) + sizeof(Block) < base + CalculateCapacity();
    }
  \<close>
  No field of \<^verbatim>\<open>*this\<close> is read.
\<close>

definition Pool_VerifyPtr :: "config \<Rightarrow> heap \<Rightarrow> addr \<Rightarrow> addr \<Rightarrow> fault + bool" where
  "Pool_VerifyPtr cfg h this ptr =
     (if ptr = nullptr then Inr False
      else case load64 h (Block_next ptr) of
        Inl f \<Rightarrow> Inl f
      | Inr nxt \<Rightarrow>
          if nxt \<noteq> OCCUPIED_BLOCK then Inr False
          else Inr (this \<le> ptr \<and> ptr + sizeof_Block < this + CalculateCapacity cfg))"

text \<open>
  \<^verbatim>\<open>
    void Free(void *ptr) noexcept {
        if (ptr == nullptr) { return; }
        if (!VerifyPtr(ptr)) { return; }
        Block *block = reinterpret_cast<Block *>(ptr);
        block->next = freeListHead_;
        freeListHead_ = block;
    }
  \<close>
\<close>

definition Pool_Free :: "config \<Rightarrow> heap \<Rightarrow> addr \<Rightarrow> addr \<Rightarrow> fault + heap" where
  "Pool_Free cfg h this ptr =
     (if ptr = nullptr then Inr h
      else and_then (Pool_VerifyPtr cfg h this ptr) (\<lambda>ok.
        if \<not> ok then Inr h
        else and_then (load64 h (freeListHead this)) (\<lambda>head.
             and_then (store64 h (Block_next ptr) head) (\<lambda>h1.
             store64 h1 (freeListHead this) ptr))))"

subsection \<open>The allocator\<close>

text \<open>
  The allocator object holds one field, \<^verbatim>\<open>MemPool *firstPool_\<close>; it lives outside the
  mapped pools.
\<close>

record allocator =
  firstPool :: addr

text \<open>
  \<^verbatim>\<open>
    static MemPool *CreateNewPool() noexcept {
        return reinterpret_cast<MemPool *>(
            mmap(NULL, CalculateCapacity(), PROT_READ | PROT_WRITE,
                 MAP_PRIVATE | MAP_ANONYMOUS, -1, 0));
    }
  \<close>
  The result of \<^verbatim>\<open>mmap\<close> is cast and returned; no constructor runs on it.
\<close>

definition CreateNewPool :: "kernel \<Rightarrow> config \<Rightarrow> heap \<Rightarrow> addr \<times> heap" where
  "CreateNewPool k cfg h = mmap (k (length (regions h))) h (CalculateCapacity cfg)"

text \<open>
  The allocator's constructor: \<^verbatim>\<open>MemPool *firstPool_ = CreateNewPool();\<close> and
  \<^verbatim>\<open>if (firstPool_ == nullptr) { throw std::bad_alloc(); }\<close>
\<close>

definition FreeListAllocator :: "kernel \<Rightarrow> config \<Rightarrow> heap \<Rightarrow> fault + allocator \<times> heap" where
  "FreeListAllocator k cfg h =
     (case CreateNewPool k cfg h of
        (p, h') \<Rightarrow> if p = nullptr then Inl BadAlloc else Inr (\<lparr>firstPool = p\<rparr>, h'))"

text \<open>
  The first half of the body of the loop of \<^verbatim>\<open>Allocate\<close>:
  \<^verbatim>\<open>
    MemPool *prevPool = pool;
    pool = pool->nextPool;
    if (pool == nullptr) {
        pool = CreateNewPool();
        prevPool->nextPool = pool;
    }
  \<close>
\<close>

definition Allocate_advance :: "kernel \<Rightarrow> config \<Rightarrow> heap \<Rightarrow> addr \<Rightarrow> fault + addr \<times> heap" where
  "Allocate_advance k cfg h prevPool =
     and_then (load64 h (nextPool prevPool)) (\<lambda>pool.
       if pool = nullptr
       then (case CreateNewPool k cfg h of
               (pool', h1) \<Rightarrow>
                 and_then (store64 h1 (nextPool prevPool) pool') (\<lambda>h2. Inr (pool', h2)))
       else Inr (pool, h))"

text \<open>
  \<^verbatim>\<open>
    while (allocated == nullptr) {
        ...
        allocated = pool->Allocate(size);
    }
    return reinterpret_cast<T *>(allocated);
  \<close>
\<close>

partial_function (option) Allocate_loop ::
  "kernel \<Rightarrow> config \<Rightarrow> heap \<Rightarrow> size_t \<Rightarrow> addr \<Rightarrow> addr \<Rightarrow> (fault + addr \<times> heap) option" where
  "Allocate_loop k cfg h sz pool allocated =
     (if allocated \<noteq> nullptr then Some (Inr (allocated, h))
      else case Allocate_advance k cfg h pool of
        Inl f \<Rightarrow> Some (Inl f)
      | Inr (pool', h1) \<Rightarrow>
          (case Pool_Allocate h1 pool' sz of
             None \<Rightarrow> None
           | Some (Inl f) \<Rightarrow> Some (Inl f)
           | Some (Inr (allocated', h2)) \<Rightarrow> Allocate_loop k cfg h2 sz pool' allocated'))"

text \<open>
  \<^verbatim>\<open>template <class T = char> T *Allocate(size_t count)\<close>; \<open>sizeof_T\<close> is
  \<^verbatim>\<open>sizeof(T)\<close>:
  \<^verbatim>\<open>
    MemPool *pool = firstPool_;
    size_t size = count * sizeof(T);
    char *allocated = pool->Allocate(size);
  \<close>
  and the loop.
\<close>

definition Allocate ::
  "kernel \<Rightarrow> config \<Rightarrow> heap \<Rightarrow> allocator \<Rightarrow> size_t \<Rightarrow> size_t \<Rightarrow> (fault + addr \<times> heap) option" where
  "Allocate k cfg h a sizeof_T count =
     (let pool = firstPool a; sz = count * sizeof_T in
      case Pool_Allocate h pool sz of
        None \<Rightarrow> None
      | Some (Inl f) \<Rightarrow> Some (Inl f)
      | Some (Inr (allocated, h1)) \<Rightarrow> Allocate_loop k cfg h1 sz pool allocated)"

text \<open>
  \<^verbatim>\<open>
    void Free(void *ptr) noexcept {
        MemPool *pool = firstPool_;
        while (pool) {
            pool = pool->nextPool;
            if (pool->VerifyPtr(ptr)) {
                pool->Free(ptr);
                break;
            }
        }
    }
  \<close>
  \<open>Free_loop\<close> is the loop, entered with the current \<^verbatim>\<open>pool\<close>.
\<close>

partial_function (option) Free_loop ::
  "config \<Rightarrow> heap \<Rightarrow> addr \<Rightarrow> addr \<Rightarrow> (fault + heap) option" where
  "Free_loop cfg h pool ptr =
     (if pool = nullptr then Some (Inr h)
      else case load64 h (nextPool pool) of
        Inl f \<Rightarrow> Some (Inl f)
      | Inr pool' \<Rightarrow>
          (case Pool_VerifyPtr cfg h pool' ptr of
             Inl f \<Rightarrow> Some (Inl f)
           | Inr ok \<Rightarrow>
               if ok then Some (Pool_Free cfg h pool' ptr)
               else Free_loop cfg h pool' ptr))"

definition Free :: "config \<Rightarrow> heap \<Rightarrow> allocator \<Rightarrow> addr \<Rightarrow> (fault + heap) option" where
  "Free cfg h a ptr = Free_loop cfg h (firstPool a) ptr"

section \<open>Predicates of the properties\<close>

text \<open>
  The capacity rule: \<open>c\<close> is \<open>n\<close> itself when \<open>n\<close> is a whole number of pages of \<open>p\<close>
  bytes, and otherwise the smallest multiple of \<open>p\<close> strictly greater than \<open>n\<close>.
\<close>

definition page_rounded :: "nat \<Rightarrow> nat \<Rightarrow> nat \<Rightarrow> bool" where
  "page_rounded p n c =
     (if p dvd n then c = n
      else p dvd c \<and> n < c \<and> (\<forall>c'. p dvd c' \<and> n < c' \<longrightarrow> c \<le> c'))"

text \<open>
  The free list as the search sees it. \<open>free_list_path h b bs b'\<close>: following the
  \<^verbatim>\<open>next\<close> links from \<open>b\<close> one passes exactly the blocks \<open>bs\<close>, in this order, and
  arrives at \<open>b'\<close>.
\<close>

fun free_list_path :: "heap \<Rightarrow> addr \<Rightarrow> addr list \<Rightarrow> addr \<Rightarrow> bool" where
  "free_list_path h b [] b' = (b' = b)"
| "free_list_path h b (x # xs) b' =
     (x = b \<and> (case load64 h (Block_next b) of
                  Inl f \<Rightarrow> False
                | Inr nxt \<Rightarrow> free_list_path h nxt xs b'))"


definition fits :: "heap \<Rightarrow> size_t \<Rightarrow> addr \<Rightarrow> bool" where
  "fits h sz b =
     (b \<noteq> nullptr \<and>
      (case load64 h (Block_size b) of
         Inl f \<Rightarrow> False
       | Inr bsize \<Rightarrow> unat sz \<le> unat bsize + unat sizeof_Block))"


text \<open>
  What \<^verbatim>\<open>Allocate\<close> writes to once it has selected \<open>block\<close> is mapped: the block's own
  header and, where the code splits, the header of the block it carves at
  \<^verbatim>\<open>allocated + size\<close>.
\<close>

definition split_target_mapped :: "heap \<Rightarrow> size_t \<Rightarrow> addr \<Rightarrow> bool" where
  "split_target_mapped h sz block =
     (case load64 h (Block_size block) of
        Inl f \<Rightarrow> False
      | Inr bsize \<Rightarrow>
          if bsize < sz + sizeof_Block
          then mapped8 h (Block_size (block + sizeof_Block + sz)) \<and>
               mapped8 h (Block_next (block + sizeof_Block + sz))
          else True)"

definition headers_mapped :: "heap \<Rightarrow> size_t \<Rightarrow> addr \<Rightarrow> bool" where
  "headers_mapped h sz block =
     (mapped8 h (Block_next block) \<and> mapped8 h (Block_size block) \<and>
      split_target_mapped h sz block)"

text \<open>
  Every mapping lies above the lowest mappable address and does not wrap around the
  address space: what \<open>mmap\<close> keeps true.
\<close>

definition valid_region :: "addr \<times> size_t \<Rightarrow> bool" where
  "valid_region r = (mmap_min_addr \<le> uint (fst r) \<and> uint (fst r) + uint (snd r) \<le> 2 ^ 64)"

definition valid_regions :: "heap \<Rightarrow> bool" where
  "valid_regions h = list_all valid_region (regions h)"

text \<open>
  A pool on which no constructor has run: wherever its two fields can be read, they
  read as null.
\<close>

definition unconstructed :: "heap \<Rightarrow> addr \<Rightarrow> bool" where
  "unconstructed h pool =
     ((if mapped8 h (nextPool pool) then peek h (nextPool pool) = nullptr else True) \<and>
      (if mapped8 h (freeListHead pool) then peek h (freeListHead pool) = nullptr else True))"

section \<open>Concrete states\<close>

text \<open>
  The states the examples below run on: a page size of 4096, the allocator
  \<^verbatim>\<open>FreeListAllocator<4048>\<close> (capacity 4096), an address space with nothing mapped, and
  a kernel that places the first mapping at \<open>0x10000\<close>.
\<close>

definition cfg_4048 :: config where
  "cfg_4048 = \<lparr>pagesize = 4096, ONE_MEM_POOL_SIZE = 4048\<rparr>"

definition empty_heap :: heap where
  "empty_heap = \<lparr>mem = (\<lambda>_. 0), regions = []\<rparr>"

text \<open>A kernel that grants one mapping and refuses every later one.\<close>

definition kernel_once :: kernel where
  "kernel_once n = (if n = 0 then Some 0x10000 else None)"

text \<open>The address space after that one mapping: a zero-filled pool at \<open>0x10000\<close>.\<close>

definition fresh_heap :: heap where
  "fresh_heap = map_region empty_heap 0x10000 4096"

text \<open>The largest pool size a \<^verbatim>\<open>size_t\<close> template argument can name.\<close>

definition cfg_max :: config where
  "cfg_max = \<lparr>pagesize = 4096, ONE_MEM_POOL_SIZE = 0xFFFFFFFFFFFFFFFF\<rparr>"


text \<open>
  The pool at \<open>0x10000\<close> after its constructor has run on the fresh mapping: the four
  writes of the constructor, in order.
\<close>

definition constructed_heap :: heap where
  "constructed_heap =
     poke (poke (poke (poke fresh_heap 0x10000 0) 0x10008 0x10100) 0x10108 4080) 0x10100 0x10110"

text \<open>
  A run on the constructed pool: \<^verbatim>\<open>a = Allocate(8)\<close>, \<^verbatim>\<open>b = Allocate(8)\<close>, each state
  written as the writes the call makes.
\<close>

definition after_alloc_a :: heap where
  "after_alloc_a = poke (poke (poke constructed_heap 0x10008 0x10110) 0x10100 0) 0x10108 24"

definition after_alloc_b :: heap where
  "after_alloc_b =
     poke (poke (poke (poke (poke after_alloc_a
       0x10130 (- 24)) 0x10128 0) 0x10008 0x10128) 0x10110 0) 0x10118 24"

text \<open>Then \<^verbatim>\<open>Free(b)\<close>, \<^verbatim>\<open>Free(a)\<close> and \<^verbatim>\<open>c = Allocate(8)\<close>.\<close>

definition after_free_b :: heap where
  "after_free_b = poke (poke after_alloc_b 0x10120 0x10128) 0x10008 0x10120"

definition after_free_a :: heap where
  "after_free_a = poke (poke after_free_b 0x10110 0x10120) 0x10008 0x10110"

definition after_alloc_c :: heap where
  "after_alloc_c = poke (poke (poke after_free_a 0x10008 0x10120) 0x10110 0) 0x10118 24"

text \<open>
  Or, after \<^verbatim>\<open>a\<close> and \<^verbatim>\<open>b\<close>, a third allocation \<^verbatim>\<open>d = Allocate(8)\<close>, which empties the
  free list, then \<^verbatim>\<open>Free(d)\<close> and \<^verbatim>\<open>Free(d)\<close> again.
\<close>

definition after_alloc_d :: heap where
  "after_alloc_d = poke (poke (poke after_alloc_b 0x10008 0) 0x10128 0) 0x10130 24"

definition after_free_d :: heap where
  "after_free_d = poke (poke after_alloc_d 0x10138 0) 0x10008 0x10138"

definition after_free_d_twice :: heap where
  "after_free_d_twice = poke (poke after_free_d 0x10138 0x10138) 0x10008 0x10138"


text \<open>The constructed pool after \<^verbatim>\<open>Allocate(0)\<close>.\<close>

definition after_alloc_zero :: heap where
  "after_alloc_zero = poke (poke (poke constructed_heap 0x10008 0x10110) 0x10100 0) 0x10108 16"

text \<open>
  The fresh pool after the pool's own \<^verbatim>\<open>Free(0x10010)\<close>, and after the allocator's
  \<^verbatim>\<open>Allocate\<close> has tried to grow the chain with a kernel that refuses.
\<close>

definition after_pool_free :: heap where
  "after_pool_free = poke (poke fresh_heap 0x10010 0) 0x10008 0x10010"

definition after_failed_growth :: heap where
  "after_failed_growth = poke fresh_heap 0x10000 MAP_FAILED"

text \<open>The allocator object whose first pool is the pool at \<open>0x10000\<close>.\<close>

definition allocator_0 :: allocator where
  "allocator_0 = \<lparr>firstPool = 0x10000\<rparr>"

section \<open>Memory lemmas\<close>

lemma bit_byte_of:
  "bit (ucast (ucast (drop_bit k (v::64 word)) :: byte) :: 64 word) n = (n < 8 \<and> bit v (k + n))"
  by (auto simp add: bit_simps dest: bit_imp_le_length)

lemma bit_byte_of0: "bit (ucast (ucast (v::64 word) :: byte) :: 64 word) n = (n < 8 \<and> bit v n)"
  using bit_byte_of [of 0 v n] by simp

lemma le64_put64_same: "le64 (put64 m a v) a = v"
proof (rule bit_word_eqI)
  fix n :: nat
  assume "n < LENGTH(64)"
  then have n: "n < 64" by simp
  define k where "k = n div 8"
  define j where "j = n mod 8"
  have nkj: "n = 8 * k + j" and j: "j < 8" and k: "k < 8"
    using n by (simp_all add: k_def j_def)
  from k have "k = 0 \<or> k = 1 \<or> k = 2 \<or> k = 3 \<or> k = 4 \<or> k = 5 \<or> k = 6 \<or> k = 7"
    by linarith
  then show "bit (le64 (put64 m a v) a) n = bit v n"
    using j unfolding nkj
    by (elim disjE)
       (simp_all add: le64_def put64_def bit_or_iff bit_push_bit_iff bit_byte_of bit_byte_of0
          bit_drop_bit_eq)
qed

lemma le64_cong:
  assumes "m a = m' a" "m (a + 1) = m' (a + 1)" "m (a + 2) = m' (a + 2)" "m (a + 3) = m' (a + 3)"
    "m (a + 4) = m' (a + 4)" "m (a + 5) = m' (a + 5)" "m (a + 6) = m' (a + 6)" "m (a + 7) = m' (a + 7)"
  shows "le64 m a = le64 m' a"
  using assms by (simp add: le64_def)

lemma far_byte:
  fixes a b :: addr
  assumes "8 \<le> b - a" "8 \<le> a - b" "i < 8"
  shows "\<not> (b + i - a < 8)"
  using assms by unat_arith

lemma le64_put64_other:
  assumes "8 \<le> b - a" "8 \<le> a - b"
  shows "le64 (put64 m a v) b = le64 m b"
proof (rule le64_cong)
  show "put64 m a v b = m b" using far_byte [OF assms, of 0] by (simp add: put64_def)
  show "put64 m a v (b + 1) = m (b + 1)" using far_byte [OF assms, of 1] by (simp add: put64_def)
  show "put64 m a v (b + 2) = m (b + 2)" using far_byte [OF assms, of 2] by (simp add: put64_def)
  show "put64 m a v (b + 3) = m (b + 3)" using far_byte [OF assms, of 3] by (simp add: put64_def)
  show "put64 m a v (b + 4) = m (b + 4)" using far_byte [OF assms, of 4] by (simp add: put64_def)
  show "put64 m a v (b + 5) = m (b + 5)" using far_byte [OF assms, of 5] by (simp add: put64_def)
  show "put64 m a v (b + 6) = m (b + 6)" using far_byte [OF assms, of 6] by (simp add: put64_def)
  show "put64 m a v (b + 7) = m (b + 7)" using far_byte [OF assms, of 7] by (simp add: put64_def)
qed



lemma le64_zero: "le64 (\<lambda>_. 0) a = 0"
  by (simp add: le64_def)


lemma in_fill_byte:
  fixes a b len :: addr
  assumes "a - b \<le> a - b + 7" "a - b + 7 < len" "i \<le> 7"
  shows "a + i - b < len"
proof -
  have eq: "a + i - b = (a - b) + i" by simp
  have "(a - b) + i \<le> (a - b) + 7"
    using assms(1,3) by (simp add: word_plus_mono_right)
  then show ?thesis unfolding eq using assms(2) by (rule order_le_less_trans)
qed

lemma out_fill_byte:
  fixes a b len :: addr
  assumes "len \<le> a - b" "a - b \<le> a - b + 7" "i \<le> 7"
  shows "\<not> a + i - b < len"
proof -
  have eq: "a + i - b = (a - b) + i" by simp
  have "a - b \<le> (a - b) + i"
    using assms(2,3) by (rule word_plus_mono_right2)
  with assms(1) have "len \<le> (a - b) + i" by (rule order_trans)
  then show ?thesis unfolding eq by (simp add: not_less)
qed

lemma le64_zero_fill_in:
  assumes "a - b \<le> a - b + 7" "a - b + 7 < len"
  shows "le64 (zero_fill m b len) a = 0"
  using in_fill_byte [OF assms, of 0] in_fill_byte [OF assms, of 1] in_fill_byte [OF assms, of 2]
    in_fill_byte [OF assms, of 3] in_fill_byte [OF assms, of 4] in_fill_byte [OF assms, of 5]
    in_fill_byte [OF assms, of 6] in_fill_byte [OF assms, of 7]
  by (simp add: le64_def zero_fill_def)

lemma le64_zero_fill_out:
  assumes "len \<le> a - b" "a - b \<le> a - b + 7"
  shows "le64 (zero_fill m b len) a = le64 m a"
  using out_fill_byte [OF assms, of 0] out_fill_byte [OF assms, of 1] out_fill_byte [OF assms, of 2]
    out_fill_byte [OF assms, of 3] out_fill_byte [OF assms, of 4] out_fill_byte [OF assms, of 5]
    out_fill_byte [OF assms, of 6] out_fill_byte [OF assms, of 7]
  by (simp add: le64_def zero_fill_def)


lemma regions_poke: "regions (poke h a v) = regions h"
  by (simp add: poke_def)

lemma mapped8_poke: "mapped8 (poke h a v) b = mapped8 h b"
  by (simp add: mapped8_def mapped_def regions_poke)

lemma peek_poke_same: "peek (poke h a v) a = v"
  by (simp add: peek_def poke_def le64_put64_same)

lemma peek_poke_other: "8 \<le> b - a \<Longrightarrow> 8 \<le> a - b \<Longrightarrow> peek (poke h a v) b = peek h b"
  by (simp add: peek_def poke_def le64_put64_other)

lemma regions_map_region: "regions (map_region h b len) = (b, len) # regions h"
  by (simp add: map_region_def)

lemma peek_map_region_in:
  "a - b \<le> a - b + 7 \<Longrightarrow> a - b + 7 < len \<Longrightarrow> peek (map_region h b len) a = 0"
  by (simp add: peek_def map_region_def le64_zero_fill_in)

lemma peek_map_region_out:
  "len \<le> a - b \<Longrightarrow> a - b \<le> a - b + 7 \<Longrightarrow> peek (map_region h b len) a = peek h a"
  by (simp add: peek_def map_region_def le64_zero_fill_out)


lemma mapped8_map_region_in:
  assumes "a - b \<le> a - b + 7" "a - b + 7 < len"
  shows "mapped8 (map_region h b len) a"
  using in_fill_byte [OF assms, of 0] in_fill_byte [OF assms, of 1] in_fill_byte [OF assms, of 2]
    in_fill_byte [OF assms, of 3] in_fill_byte [OF assms, of 4] in_fill_byte [OF assms, of 5]
    in_fill_byte [OF assms, of 6] in_fill_byte [OF assms, of 7]
  by (simp add: mapped8_def mapped_def in_region_def regions_map_region)

text \<open>The rules that run a concrete call: definitions of the accesses and the layout.\<close>

lemmas heap_simps = regions_poke mapped8_poke peek_poke_same peek_poke_other regions_map_region
  peek_map_region_in peek_map_region_out

lemmas layout_defs = nullptr_def OCCUPIED_BLOCK_def sizeof_Block_def sizeof_FreeListMemoryPool_def
  Block_next_def Block_size_def nextPool_def freeListHead_def

lemmas exec_simps = load64_def store64_def and_then_def mapped8_def mapped_def in_region_def
  heap_simps layout_defs

lemma cap_4048: "CalculateCapacity cfg_4048 = 4096"
  by (simp add: CalculateCapacity_def cfg_4048_def)

lemma region_free_first: "region_free empty_heap 0x10000 4096"
  by (simp add: region_free_def empty_heap_def mmap_min_addr_def)

lemma regions_empty_heap: "regions empty_heap = []"
  by (simp add: empty_heap_def)

lemma CreateNewPool_first:
  "CreateNewPool kernel_once cfg_4048 empty_heap = (0x10000, fresh_heap)"
  by (simp add: CreateNewPool_def mmap_def kernel_once_def cap_4048 region_free_first
      fresh_heap_def regions_empty_heap)

section \<open>The search loop and the empty free list\<close>

lemma Allocate_search_nullptr:
  "Allocate_search h sz prevBlock nullptr = Some (Inr (prevBlock, nullptr))"
  by (subst Allocate_search.simps) simp

lemma Pool_Allocate_empty:
  "load64 h (freeListHead this) = Inr nullptr \<Longrightarrow>
   Pool_Allocate h this sz = Some (Inr (nullptr, h))"
  by (simp add: Pool_Allocate_def Allocate_search_nullptr Allocate_found_def)

lemma CreateNewPool_cases:
  assumes "CreateNewPool k cfg h = (pool, h')"
  shows "(pool = MAP_FAILED \<and> h' = h) \<or>
         (region_free h pool (CalculateCapacity cfg) \<and>
          h' = map_region h pool (CalculateCapacity cfg))"
  using assms by (auto simp add: CreateNewPool_def mmap_def split: option.splits if_splits)

lemma header_in_region:
  fixes len :: size_t
  assumes "16 \<le> len"
  shows "(pool + 8) - pool \<le> (pool + 8) - pool + 7" "(pool + 8) - pool + 7 < len"
    "pool - pool \<le> pool - pool + 7" "pool - pool + 7 < len"
  using assms by simp_all unat_arith+

section \<open>C10: a pool from CreateNewPool is never constructed\<close>

text \<open>
  C10. \<^verbatim>\<open>CreateNewPool\<close> returns the mapping as it comes from \<^verbatim>\<open>mmap\<close>: whenever the
  mapping succeeds (and is large enough to hold the pool object), the heap afterwards is
  the old one with the new zero-filled region and nothing else, so no constructor has
  written to it; the pool's \<^verbatim>\<open>nextPool\<close> and \<^verbatim>\<open>freeListHead_\<close> fields read as null; and
  \<^verbatim>\<open>Allocate\<close> on the pool returns null for every requested size, leaving the heap as
  it is.
\<close>

theorem CreateNewPool_unconstructed:
  assumes "CreateNewPool k cfg h = (pool, h')" and "pool \<noteq> MAP_FAILED"
    and "sizeof_FreeListMemoryPool \<le> CalculateCapacity cfg"
  shows "h' = map_region h pool (CalculateCapacity cfg) \<and>
         load64 h' (nextPool pool) = Inr nullptr \<and>
         load64 h' (freeListHead pool) = Inr nullptr \<and>
         (\<forall>sz. Pool_Allocate h' pool sz = Some (Inr (nullptr, h')))"
proof -
  from CreateNewPool_cases [OF assms(1)] assms(2)
  have h': "h' = map_region h pool (CalculateCapacity cfg)" by simp
  from assms(3) have len: "16 \<le> CalculateCapacity cfg"
    by (simp add: sizeof_FreeListMemoryPool_def)
  have head: "load64 h' (freeListHead pool) = Inr nullptr"
    unfolding h' freeListHead_def load64_def nullptr_def
    using header_in_region [OF len, of pool]
    by (simp only: mapped8_map_region_in peek_map_region_in if_True)
  have nxt: "load64 h' (nextPool pool) = Inr nullptr"
    unfolding h' nextPool_def load64_def nullptr_def
    using header_in_region [OF len, of pool]
    by (simp only: mapped8_map_region_in peek_map_region_in if_True)
  from head have "\<forall>sz. Pool_Allocate h' pool sz = Some (Inr (nullptr, h'))"
    by (simp add: Pool_Allocate_empty)
  with h' head nxt show ?thesis by simp
qed

theorem CreateNewPool_unconstructed_witness:
  "CreateNewPool kernel_once cfg_4048 empty_heap = (0x10000, fresh_heap) \<and>
   0x10000 \<noteq> MAP_FAILED \<and>
   sizeof_FreeListMemoryPool \<le> CalculateCapacity cfg_4048 \<and>
   load64 fresh_heap (freeListHead 0x10000) = Inr nullptr \<and>
   Pool_Allocate fresh_heap 0x10000 8 = Some (Inr (nullptr, fresh_heap))"
proof -
  have a: "CreateNewPool kernel_once cfg_4048 empty_heap = (0x10000, fresh_heap)"
    by (rule CreateNewPool_first)
  have b: "(0x10000 :: addr) \<noteq> MAP_FAILED"
    by (simp add: MAP_FAILED_def)
  have c: "sizeof_FreeListMemoryPool \<le> CalculateCapacity cfg_4048"
    by (simp add: sizeof_FreeListMemoryPool_def cap_4048)
  from CreateNewPool_unconstructed [OF a b c] a b c show ?thesis by simp
qed

section \<open>C8: the capacity of a pool\<close>

lemma next_multiple:
  fixes p n :: nat
  assumes "0 < p" "\<not> p dvd n"
  shows "page_rounded p n (p * (1 + n div p))"
proof -
  have lt: "n < p * (1 + n div p)"
    using assms(1) by (metis add.commute dividend_less_times_div mult.commute mult_Suc_right plus_1_eq_Suc)
  have least: "p * (1 + n div p) \<le> c'" if "p dvd c'" "n < c'" for c'
  proof -
    from that(1) obtain k where k: "c' = p * k" by (rule dvdE)
    with that(2) assms(1) have "n div p < k"
      by (metis div_less_iff_less_mult mult.commute)
    then have "1 + n div p \<le> k" by simp
    then show ?thesis unfolding k by (rule mult_le_mono2)
  qed
  show ?thesis using assms(2) lt least by (simp add: page_rounded_def)
qed

lemma exact_multiple:
  fixes p n :: size_t
  assumes "n mod p = 0"
  shows "p * (1 + n div p) - p = n"
proof -
  have "p * (1 + n div p) - p = n div p * p" by (simp add: algebra_simps)
  also have "\<dots> = n div p * p + n mod p" using assms by simp
  also have "\<dots> = n" by (rule div_mult_mod_eq)
  finally show ?thesis .
qed

lemma unat_next_multiple:
  fixes p n :: size_t
  assumes pos: "0 < unat p" and small: "unat p * (1 + unat n div unat p) < 2 ^ 64"
  shows "unat (p * (1 + n div p)) = unat p * (1 + unat n div unat p)"
proof -
  from pos have "1 \<le> unat p" by simp
  then have "1 * (1 + unat n div unat p) \<le> unat p * (1 + unat n div unat p)"
    by (rule mult_le_mono1)
  then have "1 + unat n div unat p \<le> unat p * (1 + unat n div unat p)"
    by (simp only: nat_mult_1)
  then have q: "1 + unat n div unat p < 2 ^ 64"
    using small by (rule order_le_less_trans)
  then have "unat (1 :: size_t) + unat (n div p) < 2 ^ LENGTH(64)"
    by (simp add: unat_div)
  then have "unat (1 + n div p) = unat (1 :: size_t) + unat (n div p)"
    by (rule unat_add_lem [THEN iffD1])
  then have u1: "unat (1 + n div p) = 1 + unat n div unat p"
    by (simp add: unat_div)
  from small have "unat p * unat (1 + n div p) < 2 ^ LENGTH(64)"
    unfolding u1 by simp
  then have "unat (p * (1 + n div p)) = unat p * unat (1 + n div p)"
    by (rule unat_mult_lem [THEN iffD1])
  then show ?thesis unfolding u1 .
qed

text \<open>
  C8, as amended. For every nonzero page size and every configured pool size,
  \<^verbatim>\<open>CalculateCapacity\<close> returns the configured size when that is an exact multiple of
  the page size; otherwise it returns the smallest multiple of the page size strictly
  greater than the configured size, provided that multiple is below \<open>2 ^ 64\<close>, so that
  a \<^verbatim>\<open>size_t\<close> can hold it.
\<close>

theorem CalculateCapacity_rounds:
  assumes p: "pagesize cfg \<noteq> 0"
    and fits: "ONE_MEM_POOL_SIZE cfg mod pagesize cfg = 0 \<or>
               unat (pagesize cfg) * (1 + unat (ONE_MEM_POOL_SIZE cfg) div unat (pagesize cfg)) < 2 ^ 64"
  shows "page_rounded (unat (pagesize cfg)) (unat (ONE_MEM_POOL_SIZE cfg))
           (unat (CalculateCapacity cfg))"
proof (cases "ONE_MEM_POOL_SIZE cfg mod pagesize cfg = 0")
  case True
  then have "unat (ONE_MEM_POOL_SIZE cfg mod pagesize cfg) = 0" by simp
  then have "unat (ONE_MEM_POOL_SIZE cfg) mod unat (pagesize cfg) = 0"
    by (simp only: unat_mod)
  then have "unat (pagesize cfg) dvd unat (ONE_MEM_POOL_SIZE cfg)"
    by (simp only: dvd_eq_mod_eq_0)
  moreover have "CalculateCapacity cfg = ONE_MEM_POOL_SIZE cfg"
    using True by (simp add: CalculateCapacity_def Let_def exact_multiple)
  ultimately show ?thesis by (simp add: page_rounded_def)
next
  case False
  with fits have small:
    "unat (pagesize cfg) * (1 + unat (ONE_MEM_POOL_SIZE cfg) div unat (pagesize cfg)) < 2 ^ 64"
    by simp
  from p have pos: "0 < unat (pagesize cfg)" by (simp add: unat_gt_0)
  from False have "unat (ONE_MEM_POOL_SIZE cfg mod pagesize cfg) \<noteq> 0"
    by (simp add: unat_eq_zero)
  then have "unat (ONE_MEM_POOL_SIZE cfg) mod unat (pagesize cfg) \<noteq> 0"
    by (simp add: unat_mod)
  then have nd: "\<not> unat (pagesize cfg) dvd unat (ONE_MEM_POOL_SIZE cfg)"
    by (simp add: dvd_eq_mod_eq_0)
  have "CalculateCapacity cfg = pagesize cfg * (1 + ONE_MEM_POOL_SIZE cfg div pagesize cfg)"
    using False by (simp add: CalculateCapacity_def Let_def)
  then show ?thesis
    using next_multiple [OF pos nd] unat_next_multiple [OF pos small] by simp
qed

theorem CalculateCapacity_rounds_witness:
  "pagesize cfg_4048 \<noteq> 0 \<and>
   unat (pagesize cfg_4048) * (1 + unat (ONE_MEM_POOL_SIZE cfg_4048) div unat (pagesize cfg_4048))
     < 2 ^ 64 \<and>
   page_rounded 4096 4048 (unat (CalculateCapacity cfg_4048)) \<and>
   CalculateCapacity cfg_4048 = 4096"
proof -
  have p: "pagesize cfg_4048 \<noteq> 0"
    by (simp add: cfg_4048_def)
  have small: "unat (pagesize cfg_4048) *
      (1 + unat (ONE_MEM_POOL_SIZE cfg_4048) div unat (pagesize cfg_4048)) < 2 ^ 64"
    by (simp add: cfg_4048_def)
  from CalculateCapacity_rounds [OF p disjI2, OF small] p small cap_4048
  show ?thesis by (simp add: cfg_4048_def)
qed

text \<open>
  The claim as stated fails where the next page boundary does not fit a \<^verbatim>\<open>size_t\<close>:
  for a pool size of \<open>2 ^ 64 - 1\<close> and a page size of 4096 the product wraps around and
  the capacity is 0, which is not greater than the pool size.
\<close>

lemma cap_max: "CalculateCapacity cfg_max = 0"
  by (simp add: cfg_max_def CalculateCapacity_def)

theorem CalculateCapacity_overflow_counterexample:
  "\<not> page_rounded (unat (pagesize cfg_max)) (unat (ONE_MEM_POOL_SIZE cfg_max))
        (unat (CalculateCapacity cfg_max))"
  unfolding cap_max by (simp add: page_rounded_def cfg_max_def)

section \<open>Running a concrete call\<close>

text \<open>The rules that evaluate a call on the one-pool heap.\<close>

lemma mapped8_fresh:
  assumes "a - 0x10000 \<le> a - 0x10000 + 7" "a - 0x10000 + 7 < 4096"
  shows "mapped8 fresh_heap a"
  unfolding fresh_heap_def using assms by (rule mapped8_map_region_in)

lemma peek_fresh:
  assumes "a - 0x10000 \<le> a - 0x10000 + 7" "a - 0x10000 + 7 < 4096"
  shows "peek fresh_heap a = 0"
  unfolding fresh_heap_def using assms by (rule peek_map_region_in)

lemmas run_simps = load64_def store64_def and_then_def mapped8_poke mapped8_fresh
  peek_poke_same peek_poke_other peek_fresh layout_defs

section \<open>Mappings stay apart\<close>

text \<open>
  A byte of an existing mapping is never a byte of a region that \<open>mmap\<close> hands out
  later, and nothing below the lowest mappable address is ever mapped.
\<close>

lemma in_region_iff:
  assumes "uint b + uint l \<le> 2 ^ 64"
  shows "in_region a (b, l) = (uint b \<le> uint a \<and> uint a < uint b + uint l)"
proof (cases "uint b \<le> uint a")
  case True
  then have "uint (a - b) = uint a - uint b"
    using uint_sub_if' [of a b] by simp
  with True show ?thesis
    by (auto simp add: in_region_def word_less_def)
next
  case False
  then have sub: "uint (a - b) = uint a - uint b + 2 ^ 64"
    using uint_sub_if' [of a b] by simp
  have "0 \<le> uint a" by simp
  with assms have "\<not> uint a - uint b + 2 ^ 64 < uint l" by linarith
  with False show ?thesis
    by (simp add: in_region_def word_less_def sub)
qed

lemma mapped_valid:
  assumes "valid_regions h" "mapped h a"
  obtains b l where "(b, l) \<in> set (regions h)" "mmap_min_addr \<le> uint b"
    "uint b + uint l \<le> 2 ^ 64" "uint b \<le> uint a" "uint a < uint b + uint l"
proof -
  from assms(2) obtain r where r: "r \<in> set (regions h)" "in_region a r"
    by (auto simp add: mapped_def list_ex_iff)
  obtain b l where bl: "r = (b, l)" by (cases r)
  from assms(1) r(1) have v: "valid_region r"
    by (simp add: valid_regions_def list_all_iff)
  then have v': "mmap_min_addr \<le> uint b" "uint b + uint l \<le> 2 ^ 64"
    by (simp_all add: valid_region_def bl)
  from r(2) have "uint b \<le> uint a \<and> uint a < uint b + uint l"
    unfolding bl using in_region_iff [OF v'(2)] by simp
  with that r(1) v' show ?thesis unfolding bl by blast
qed

lemma mapped_above_min:
  assumes "valid_regions h" "mapped h a"
  shows "mmap_min_addr \<le> uint a"
  using assms by (rule mapped_valid) simp

lemma region_free_disjoint:
  assumes "valid_regions h" "region_free h b len" "mapped h a"
  shows "\<not> in_region a (b, len)"
proof -
  from assms(1,3) obtain b' l' where r: "(b', l') \<in> set (regions h)"
    and a: "uint b' \<le> uint a" "uint a < uint b' + uint l'"
    by (rule mapped_valid)
  from assms(2) have len: "uint b + uint len \<le> 2 ^ 64" and ap: "list_all (apart b len) (regions h)"
    by (simp_all add: region_free_def)
  from ap r have "apart b len (b', l')" by (simp add: list_all_iff)
  then have "uint b + uint len \<le> uint b' \<or> uint b' + uint l' \<le> uint b"
    by (simp add: apart_def)
  with a show ?thesis unfolding in_region_iff [OF len] by auto
qed

lemma word_less_8_cases:
  fixes i :: addr
  assumes "i < 8"
  shows "i = 0 \<or> i = 1 \<or> i = 2 \<or> i = 3 \<or> i = 4 \<or> i = 5 \<or> i = 6 \<or> i = 7"
proof -
  from assms have "unat i < 8" by (simp add: word_less_nat_alt)
  then have "unat i = 0 \<or> unat i = 1 \<or> unat i = 2 \<or> unat i = 3 \<or> unat i = 4 \<or>
             unat i = 5 \<or> unat i = 6 \<or> unat i = 7" by linarith
  moreover have "i = word_of_nat (unat i)" by simp
  ultimately show ?thesis by (elim disjE) simp_all
qed

lemma mapped8_byte:
  assumes "mapped8 h a" "i < 8"
  shows "mapped h (a + i)"
  using word_less_8_cases [OF assms(2)] assms(1) by (auto simp add: mapped8_def)

lemma far_apart:
  fixes x y :: addr
  assumes "\<And>i j. i < 8 \<Longrightarrow> j < 8 \<Longrightarrow> x + i \<noteq> y + j"
  shows "8 \<le> y - x" "8 \<le> x - y"
proof -
  show "8 \<le> y - x"
  proof (rule ccontr)
    assume "\<not> 8 \<le> y - x"
    then have "y - x < 8" by simp
    from assms [OF this, of 0] show False by simp
  qed
  show "8 \<le> x - y"
  proof (rule ccontr)
    assume "\<not> 8 \<le> x - y"
    then have "x - y < 8" by simp
    from assms [OF _ this, of 0] show False by simp
  qed
qed

lemma fresh_far:
  assumes valid: "valid_regions h" and free: "region_free h b len" and old: "mapped8 h x"
    and new: "\<And>j. j < 8 \<Longrightarrow> in_region (y + j) (b, len)"
  shows "8 \<le> y - x" "8 \<le> x - y"
proof -
  have ne: "x + i \<noteq> y + j" if "i < 8" "j < 8" for i j
  proof
    assume eq: "x + i = y + j"
    from old that(1) have "mapped h (x + i)" by (rule mapped8_byte)
    with valid free have "\<not> in_region (x + i) (b, len)" by (rule region_free_disjoint)
    with new [OF that(2)] eq show False by simp
  qed
  show "8 \<le> y - x" using ne by (rule far_apart(1))
  show "8 \<le> x - y" using ne by (rule far_apart(2))
qed

lemma header_bytes_in_region:
  fixes len :: size_t
  assumes "16 \<le> len" "j < 8"
  shows "in_region (b + j) (b, len)" "in_region (b + 8 + j) (b, len)"
proof -
  from assms(2) have j: "j \<le> 7" by (simp add: word_less_8_cases [OF assms(2), THEN disjE] word_le_def word_less_def) 
  from in_fill_byte [OF header_in_region(3,4) [OF assms(1), of b] j]
  show "in_region (b + j) (b, len)" by (simp add: in_region_def)
  from in_fill_byte [OF header_in_region(1,2) [OF assms(1), of b] j]
  show "in_region (b + 8 + j) (b, len)" by (simp add: in_region_def)
qed

lemma valid_regions_poke: "valid_regions (poke h a v) = valid_regions h"
  by (simp add: valid_regions_def regions_poke)

lemma valid_regions_map_region:
  assumes "valid_regions h" "region_free h b len"
  shows "valid_regions (map_region h b len)"
  using assms
  by (simp add: valid_regions_def regions_map_region valid_region_def region_free_def)

lemma mapped8_map_region_mono: "mapped8 h a \<Longrightarrow> mapped8 (map_region h b len) a"
  by (simp add: mapped8_def mapped_def regions_map_region)

lemma not_mapped_low:
  assumes "valid_regions h" "uint a < mmap_min_addr"
  shows "\<not> mapped h a"
  using mapped_above_min [OF assms(1), of a] assms(2) by auto

lemma not_mapped8_MAP_FAILED:
  assumes "valid_regions h"
  shows "\<not> mapped8 h (nextPool MAP_FAILED)" "\<not> mapped8 h (freeListHead MAP_FAILED)"
proof -
  have "\<not> mapped h (MAP_FAILED + 1)"
    using assms by (rule not_mapped_low) (simp add: MAP_FAILED_def mmap_min_addr_def)
  then show "\<not> mapped8 h (nextPool MAP_FAILED)" by (simp add: mapped8_def nextPool_def)
  have "\<not> mapped h (MAP_FAILED + 8)"
    using assms by (rule not_mapped_low) (simp add: MAP_FAILED_def mmap_min_addr_def)
  then show "\<not> mapped8 h (freeListHead MAP_FAILED)" by (simp add: mapped8_def freeListHead_def)
qed

section \<open>C1: Allocate on the allocator as its constructor leaves it\<close>

text \<open>
  Every pool of the chain comes from \<^verbatim>\<open>CreateNewPool\<close> and stays unconstructed: its
  free-list head is null, so \<^verbatim>\<open>Pool.Allocate\<close> returns null (or faults, on the pool
  \<^verbatim>\<open>MAP_FAILED\<close>), the loop appends one more such pool, and so on.
\<close>

lemma Pool_Allocate_unconstructed:
  assumes "unconstructed h pool"
  shows "Pool_Allocate h pool sz = Some (Inl SegFault) \<or>
         Pool_Allocate h pool sz = Some (Inr (nullptr, h))"
proof (cases "mapped8 h (freeListHead pool)")
  case True
  with assms have "load64 h (freeListHead pool) = Inr nullptr"
    by (simp add: unconstructed_def load64_def)
  then show ?thesis by (simp add: Pool_Allocate_empty)
next
  case False
  then show ?thesis by (simp add: Pool_Allocate_def load64_def)
qed

lemma unconstructed_MAP_FAILED:
  assumes "valid_regions h"
  shows "unconstructed h MAP_FAILED"
  using not_mapped8_MAP_FAILED [OF assms] by (simp add: unconstructed_def)

lemma unconstructed_linked:
  assumes valid: "valid_regions h" and free: "region_free h b len" and len: "16 \<le> len"
    and old: "mapped8 h x"
  shows "unconstructed (poke (map_region h b len) x v) b"
proof -
  note far0 = fresh_far [OF valid free old header_bytes_in_region(1) [OF len]]
  note far8 = fresh_far [OF valid free old header_bytes_in_region(2) [OF len]]
  have "peek (poke (map_region h b len) x v) b = 0"
    using far0 header_in_region(3,4) [OF len, of b]
    by (simp only: peek_poke_other peek_map_region_in)
  moreover have "peek (poke (map_region h b len) x v) (b + 8) = 0"
    using far8 header_in_region(1,2) [OF len, of b]
    by (simp only: peek_poke_other peek_map_region_in)
  ultimately show ?thesis
    by (simp add: unconstructed_def nextPool_def freeListHead_def nullptr_def)
qed

lemma Allocate_advance_unconstructed:
  assumes valid: "valid_regions h" and pool: "unconstructed h pool"
    and len: "16 \<le> CalculateCapacity cfg"
    and adv: "Allocate_advance k cfg h pool = Inr (pool', h')"
  shows "valid_regions h' \<and> unconstructed h' pool'"
proof -
  from adv have m: "mapped8 h (nextPool pool)"
    by (auto simp add: Allocate_advance_def and_then_def load64_def split: if_splits)
  with pool have nxt: "load64 h (nextPool pool) = Inr nullptr"
    by (simp add: unconstructed_def load64_def)
  obtain p h1 where new: "CreateNewPool k cfg h = (p, h1)" by (cases "CreateNewPool k cfg h")
  from CreateNewPool_cases [OF new] show ?thesis
  proof
    assume failed: "p = MAP_FAILED \<and> h1 = h"
    with adv nxt new m have "pool' = MAP_FAILED" "h' = poke h (nextPool pool) MAP_FAILED"
      by (auto simp add: Allocate_advance_def and_then_def store64_def)
    with valid show ?thesis
      by (simp add: valid_regions_poke unconstructed_MAP_FAILED)
  next
    assume ok: "region_free h p (CalculateCapacity cfg) \<and> h1 = map_region h p (CalculateCapacity cfg)"
    with m have "mapped8 h1 (nextPool pool)" by (simp add: mapped8_map_region_mono)
    with adv nxt new ok have "pool' = p"
      "h' = poke (map_region h p (CalculateCapacity cfg)) (nextPool pool) p"
      by (auto simp add: Allocate_advance_def and_then_def store64_def)
    with valid ok len m show ?thesis
      by (simp add: valid_regions_poke valid_regions_map_region unconstructed_linked)
  qed
qed

lemma Allocate_loop_unconstructed:
  assumes "Allocate_loop k cfg h sz pool allocated = Some y"
  shows "allocated = nullptr \<longrightarrow> valid_regions h \<longrightarrow> unconstructed h pool \<longrightarrow>
         16 \<le> CalculateCapacity cfg \<longrightarrow> (\<forall>r. y \<noteq> Inr r)"
proof (rule Allocate_loop.raw_induct [where P = "\<lambda>k cfg h sz pool allocated y.
    allocated = nullptr \<longrightarrow> valid_regions h \<longrightarrow> unconstructed h pool \<longrightarrow>
    16 \<le> CalculateCapacity cfg \<longrightarrow> (\<forall>r. y \<noteq> Inr r)", OF _ assms])
  fix loop k cfg h sz pool allocated y
  assume IH: "\<And>k cfg h sz pool allocated y. loop k cfg h sz pool allocated = Some y \<Longrightarrow>
       allocated = nullptr \<longrightarrow> valid_regions h \<longrightarrow> unconstructed h pool \<longrightarrow>
       16 \<le> CalculateCapacity cfg \<longrightarrow> (\<forall>r. y \<noteq> Inr r)"
    and body: "(if allocated \<noteq> nullptr then Some (Inr (allocated, h))
      else case Allocate_advance k cfg h pool of
        Inl f \<Rightarrow> Some (Inl f)
      | Inr (pool', h1) \<Rightarrow>
          (case Pool_Allocate h1 pool' sz of
             None \<Rightarrow> None
           | Some (Inl f) \<Rightarrow> Some (Inl f)
           | Some (Inr (allocated', h2)) \<Rightarrow> loop k cfg h2 sz pool' allocated')) = Some y"
  show "allocated = nullptr \<longrightarrow> valid_regions h \<longrightarrow> unconstructed h pool \<longrightarrow>
        16 \<le> CalculateCapacity cfg \<longrightarrow> (\<forall>r. y \<noteq> Inr r)"
  proof (intro impI)
    assume null: "allocated = nullptr" and valid: "valid_regions h"
      and pool: "unconstructed h pool" and len: "16 \<le> CalculateCapacity cfg"
    show "\<forall>r. y \<noteq> Inr r"
    proof (cases "Allocate_advance k cfg h pool")
      case (Inl f)
      with body null show ?thesis by auto
    next
      case (Inr r)
      obtain pool' h1 where r: "r = (pool', h1)" by (cases r)
      from Allocate_advance_unconstructed [OF valid pool len Inr [unfolded r]]
      have valid1: "valid_regions h1" and pool1: "unconstructed h1 pool'" by simp_all
      from Pool_Allocate_unconstructed [OF pool1, of sz] show ?thesis
      proof
        assume "Pool_Allocate h1 pool' sz = Some (Inl SegFault)"
        with body null Inr r show ?thesis by auto
      next
        assume "Pool_Allocate h1 pool' sz = Some (Inr (nullptr, h1))"
        with body null Inr r have "loop k cfg h1 sz pool' nullptr = Some y" by simp
        from IH [OF this] valid1 pool1 len show ?thesis by simp
      qed
    qed
  qed
qed

lemma unconstructed_fresh:
  assumes "16 \<le> len"
  shows "unconstructed (map_region h b len) b"
  using header_in_region [OF assms, of b]
  by (simp add: unconstructed_def nextPool_def freeListHead_def nullptr_def peek_map_region_in)

lemma FreeListAllocator_unconstructed:
  assumes valid: "valid_regions h0" and ctor: "FreeListAllocator k cfg h0 = Inr (a, h)"
    and len: "16 \<le> CalculateCapacity cfg"
  shows "valid_regions h \<and> unconstructed h (firstPool a)"
proof -
  obtain p h1 where new: "CreateNewPool k cfg h0 = (p, h1)" by (cases "CreateNewPool k cfg h0")
  with ctor have a: "firstPool a = p" and h: "h = h1"
    by (auto simp add: FreeListAllocator_def split: if_splits)
  from CreateNewPool_cases [OF new] show ?thesis
  proof
    assume "p = MAP_FAILED \<and> h1 = h0"
    with valid a h show ?thesis by (simp add: unconstructed_MAP_FAILED)
  next
    assume "region_free h0 p (CalculateCapacity cfg) \<and> h1 = map_region h0 p (CalculateCapacity cfg)"
    with valid len a h show ?thesis
      by (simp add: valid_regions_map_region unconstructed_fresh)
  qed
qed

lemma Allocate_unconstructed:
  assumes valid: "valid_regions h" and pool: "unconstructed h (firstPool a)"
    and len: "16 \<le> CalculateCapacity cfg"
  shows "Allocate k cfg h a sizeof_T count \<noteq> Some (Inr r)"
proof
  assume ret: "Allocate k cfg h a sizeof_T count = Some (Inr r)"
  from Pool_Allocate_unconstructed [OF pool, of "count * sizeof_T"] show False
  proof
    assume "Pool_Allocate h (firstPool a) (count * sizeof_T) = Some (Inl SegFault)"
    with ret show False by (simp add: Allocate_def)
  next
    assume "Pool_Allocate h (firstPool a) (count * sizeof_T) = Some (Inr (nullptr, h))"
    with ret have "Allocate_loop k cfg h (count * sizeof_T) (firstPool a) nullptr = Some (Inr r)"
      by (simp add: Allocate_def)
    from Allocate_loop_unconstructed [OF this] valid pool len show False by simp
  qed
qed

text \<open>
  C1. The claim is that \<^verbatim>\<open>Allocate\<close> always completes, returning a pointer or null.
  On the allocator as its own constructor leaves it, the code does neither, for every
  count, every element size and every behaviour of the kernel: \<^verbatim>\<open>Allocate\<close> never
  returns a value. Either the loop goes on mapping pools without end, or it ends in a
  fault when the kernel refuses a mapping and \<^verbatim>\<open>MAP_FAILED\<close> is dereferenced.
\<close>

theorem Allocate_never_returns:
  assumes "valid_regions h0" and "FreeListAllocator k cfg h0 = Inr (a, h)"
    and "sizeof_FreeListMemoryPool \<le> CalculateCapacity cfg"
  shows "Allocate k cfg h a sizeof_T count \<noteq> Some (Inr r)"
proof -
  from assms(3) have len: "16 \<le> CalculateCapacity cfg"
    by (simp add: sizeof_FreeListMemoryPool_def)
  from FreeListAllocator_unconstructed [OF assms(1,2) len]
  show ?thesis using len by (simp add: Allocate_unconstructed)
qed

lemma valid_regions_empty_heap: "valid_regions empty_heap"
  by (simp add: valid_regions_def regions_empty_heap)

lemma FreeListAllocator_first:
  "FreeListAllocator kernel_once cfg_4048 empty_heap = Inr (allocator_0, fresh_heap)"
  by (simp add: FreeListAllocator_def CreateNewPool_first nullptr_def allocator_0_def)

theorem Allocate_never_returns_witness:
  "valid_regions empty_heap \<and>
   FreeListAllocator kernel_once cfg_4048 empty_heap = Inr (allocator_0, fresh_heap) \<and>
   sizeof_FreeListMemoryPool \<le> CalculateCapacity cfg_4048 \<and>
   (\<forall>r. Allocate kernel_once cfg_4048 fresh_heap allocator_0 1 1 \<noteq> Some (Inr r))"
proof -
  have c: "sizeof_FreeListMemoryPool \<le> CalculateCapacity cfg_4048"
    by (simp add: sizeof_FreeListMemoryPool_def cap_4048)
  from Allocate_never_returns [OF valid_regions_empty_heap FreeListAllocator_first c]
    valid_regions_empty_heap FreeListAllocator_first c
  show ?thesis by simp
qed

text \<open>With a kernel that refuses the second mapping, the call ends in the fault.\<close>

lemma regions_fresh_heap: "regions fresh_heap = [(0x10000, 4096)]"
  by (simp add: fresh_heap_def regions_map_region regions_empty_heap)

lemma not_mapped8_fresh_7: "\<not> mapped8 fresh_heap 7"
  by (simp add: mapped8_def mapped_def in_region_def regions_fresh_heap)

lemma CreateNewPool_refused:
  "CreateNewPool kernel_once cfg_4048 fresh_heap = (MAP_FAILED, fresh_heap)"
  by (simp add: CreateNewPool_def mmap_def kernel_once_def regions_fresh_heap)

lemma Allocate_advance_refused:
  "Allocate_advance kernel_once cfg_4048 fresh_heap 0x10000 = Inr (MAP_FAILED, after_failed_growth)"
  by (simp add: Allocate_advance_def CreateNewPool_refused after_failed_growth_def run_simps)

lemma Pool_Allocate_MAP_FAILED:
  "Pool_Allocate after_failed_growth MAP_FAILED sz = Some (Inl SegFault)"
  by (simp add: Pool_Allocate_def after_failed_growth_def load64_def freeListHead_def
      MAP_FAILED_def mapped8_poke not_mapped8_fresh_7)

lemma Pool_Allocate_fresh:
  "Pool_Allocate fresh_heap 0x10000 sz = Some (Inr (nullptr, fresh_heap))"
  by (rule Pool_Allocate_empty) (simp add: run_simps)

lemma Allocate_crashes:
  "Allocate kernel_once cfg_4048 fresh_heap allocator_0 sizeof_T count = Some (Inl SegFault)"
  by (simp add: Allocate_def allocator_0_def Pool_Allocate_fresh Allocate_loop.simps
      Allocate_advance_refused Pool_Allocate_MAP_FAILED)

section \<open>Runs on the constructed pool\<close>

text \<open>Each call of the run, evaluated on the state before it.\<close>

lemmas pool_defs = Pool_Allocate_def Allocate_found_def Allocate_split_def Allocate_unlink_def
  Pool_VerifyPtr_def Pool_Free_def

lemmas heap_defs = constructed_heap_def after_alloc_a_def after_alloc_b_def after_free_b_def
  after_free_a_def after_alloc_c_def after_alloc_d_def after_free_d_def after_free_d_twice_def

lemma run_ctor: "FreeListMemoryPool cfg_4048 fresh_heap 0x10000 = Inr constructed_heap"
  by (simp add: FreeListMemoryPool_def cap_4048 constructed_heap_def run_simps)

lemma run_alloc_a: "Pool_Allocate constructed_heap 0x10000 8 = Some (Inr (0x10110, after_alloc_a))"
  by (simp add: pool_defs Allocate_search.simps heap_defs run_simps)

lemma run_alloc_b: "Pool_Allocate after_alloc_a 0x10000 8 = Some (Inr (0x10120, after_alloc_b))"
  by (simp add: pool_defs Allocate_search.simps heap_defs run_simps)

lemma run_free_b: "Pool_Free cfg_4048 after_alloc_b 0x10000 0x10120 = Inr after_free_b"
  by (simp add: pool_defs cap_4048 heap_defs run_simps)

lemma run_free_a: "Pool_Free cfg_4048 after_free_b 0x10000 0x10110 = Inr after_free_a"
  by (simp add: pool_defs cap_4048 heap_defs run_simps)

lemma run_alloc_c: "Pool_Allocate after_free_a 0x10000 8 = Some (Inr (0x10120, after_alloc_c))"
  by (simp add: pool_defs Allocate_search.simps heap_defs run_simps)

lemma run_verify_c: "Pool_VerifyPtr cfg_4048 after_alloc_c 0x10000 0x10120 = Inr False"
  by (simp add: pool_defs cap_4048 heap_defs run_simps)

lemma run_alloc_d: "Pool_Allocate after_alloc_b 0x10000 8 = Some (Inr (0x10138, after_alloc_d))"
  by (simp add: pool_defs Allocate_search.simps heap_defs run_simps)

lemma run_free_d: "Pool_Free cfg_4048 after_alloc_d 0x10000 0x10138 = Inr after_free_d"
  by (simp add: pool_defs cap_4048 heap_defs run_simps)

lemma run_verify_d: "Pool_VerifyPtr cfg_4048 after_free_d 0x10000 0x10138 = Inr True"
  by (simp add: pool_defs cap_4048 heap_defs run_simps)

lemma run_free_d_twice: "Pool_Free cfg_4048 after_free_d 0x10000 0x10138 = Inr after_free_d_twice"
  by (simp add: pool_defs cap_4048 heap_defs run_simps)

lemma run_peek_d: "peek after_free_d 0x10138 = 0" "peek after_free_d_twice 0x10138 = 0x10138"
  by (simp_all add: heap_defs run_simps)

section \<open>C9: the first-fit search\<close>



lemma Allocate_search_stops:
  assumes "b \<noteq> nullptr" "load64 h (Block_size b) = Inr bsize" "\<not> bsize + sizeof_Block < sz"
  shows "Allocate_search h sz prevBlock b = Some (Inr (prevBlock, b))"
  using assms by (subst Allocate_search.simps) simp


text \<open>Nothing \<^verbatim>\<open>Allocate\<close> touches after the search faults when the headers are mapped.\<close>

lemma load64_mapped8: "load64 h a = Inr v \<Longrightarrow> mapped8 h a"
  by (simp add: load64_def split: if_splits)


lemma Allocate_found_no_fault:
  assumes "block \<noteq> nullptr" "headers_mapped h sz block" "mapped8 h (freeListHead this)"
    and "prevBlock = nullptr \<or> mapped8 h (Block_next prevBlock)"
  shows "\<exists>h'. Allocate_found h this sz prevBlock block = Inr (block + sizeof_Block, h')"
  using assms
  by (auto simp add: Allocate_found_def Allocate_split_def Allocate_unlink_def and_then_def
      headers_mapped_def split_target_mapped_def load64_def store64_def mapped8_poke Let_def)





section \<open>C5: a request for zero bytes\<close>

lemma run_alloc_zero:
  "Pool_Allocate constructed_heap 0x10000 0 = Some (Inr (0x10110, after_alloc_zero))"
  by (simp add: pool_defs Allocate_search.simps heap_defs after_alloc_zero_def run_simps)

text \<open>
  C5, as amended. \<^verbatim>\<open>Allocate\<close> does not reject a request for zero bytes: it has no
  check of the size and passes \<open>count * sizeof(T) = 0\<close> to the first pool's
  \<^verbatim>\<open>Allocate\<close>, where every block fits. When the first pool's free list is not empty
  and the headers that \<^verbatim>\<open>Allocate\<close> writes are mapped, the head block is selected
  and the call returns the address right after its header, which is not null.
\<close>

theorem Allocate_zero_served:
  assumes zero: "count * sizeof_T = 0"
    and head: "load64 h (freeListHead (firstPool a)) = Inr head" and block: "head \<noteq> nullptr"
    and mapped: "headers_mapped h 0 head" and ptr: "head + sizeof_Block \<noteq> nullptr"
  shows "\<exists>h'. Pool_Allocate h (firstPool a) 0 = Some (Inr (head + sizeof_Block, h')) \<and>
              Allocate k cfg h a sizeof_T count = Some (Inr (head + sizeof_Block, h'))"
proof -
  from mapped obtain bsize where "load64 h (Block_size head) = Inr bsize"
    by (auto simp add: headers_mapped_def load64_def)
  with block have search: "Allocate_search h 0 nullptr head = Some (Inr (nullptr, head))"
    by (intro Allocate_search_stops) simp_all
  from head have "mapped8 h (freeListHead (firstPool a))" by (rule load64_mapped8)
  with block mapped obtain h' where
    "Allocate_found h (firstPool a) 0 nullptr head = Inr (head + sizeof_Block, h')"
    by (blast dest: Allocate_found_no_fault)
  with search head
  have pool: "Pool_Allocate h (firstPool a) 0 = Some (Inr (head + sizeof_Block, h'))"
    by (simp add: Pool_Allocate_def)
  with zero ptr have "Allocate k cfg h a sizeof_T count = Some (Inr (head + sizeof_Block, h'))"
    by (simp add: Allocate_def Allocate_loop.simps)
  with pool show ?thesis by blast
qed

theorem Allocate_zero_served_witness:
  "(0 :: size_t) * 1 = 0 \<and>
   load64 constructed_heap (freeListHead (firstPool allocator_0)) = Inr 0x10100 \<and>
   (0x10100 :: addr) \<noteq> nullptr \<and>
   headers_mapped constructed_heap 0 0x10100 \<and>
   (0x10100 :: addr) + sizeof_Block \<noteq> nullptr \<and>
   (\<exists>h'. Pool_Allocate constructed_heap (firstPool allocator_0) 0 =
           Some (Inr (0x10100 + sizeof_Block, h')) \<and>
         Allocate kernel_once cfg_4048 constructed_heap allocator_0 1 0 =
           Some (Inr (0x10100 + sizeof_Block, h')))"
proof -
  have zero: "(0 :: size_t) * 1 = 0" by simp
  have head: "load64 constructed_heap (freeListHead (firstPool allocator_0)) = Inr 0x10100"
    by (simp add: allocator_0_def heap_defs run_simps)
  have block: "(0x10100 :: addr) \<noteq> nullptr" by (simp add: nullptr_def)
  have mapped: "headers_mapped constructed_heap 0 0x10100"
    by (simp add: headers_mapped_def split_target_mapped_def heap_defs run_simps)
  have ptr: "(0x10100 :: addr) + sizeof_Block \<noteq> nullptr"
    by (simp add: nullptr_def sizeof_Block_def)
  from Allocate_zero_served [OF zero head block mapped ptr, of kernel_once cfg_4048]
    zero head block mapped ptr
  show ?thesis by simp
qed

text \<open>
  The claim as stated fails: on a first pool whose constructor has run,
  \<^verbatim>\<open>Allocate<char>(0)\<close> returns the non-null address \<open>0x10110\<close> and takes the head
  block off the free list; and on the allocator as constructed, with a kernel that
  refuses to map a second pool, it does not return null either, but ends in a fault.
\<close>

theorem Allocate_zero_counterexample:
  "Allocate kernel_once cfg_4048 constructed_heap allocator_0 1 0 =
     Some (Inr (0x10110, after_alloc_zero)) \<and>
   (0x10110 :: addr) \<noteq> nullptr \<and>
   Allocate kernel_once cfg_4048 fresh_heap allocator_0 1 0 = Some (Inl SegFault)"
proof -
  have "Allocate kernel_once cfg_4048 constructed_heap allocator_0 1 0 =
      Some (Inr (0x10110, after_alloc_zero))"
    by (simp add: Allocate_def allocator_0_def run_alloc_zero Allocate_loop.simps nullptr_def)
  then show ?thesis by (simp add: Allocate_crashes nullptr_def)
qed

section \<open>C2: when Allocate splits a block\<close>

text \<open>
  C2. The claim is that a fitting block is split exactly when what is left over after
  the request and one header can hold a header. The code tests
  \<^verbatim>\<open>block->size < size + sizeof(Block)\<close>, the opposite. On the constructed pool, a
  request of 8 bytes meets the block of 4080 bytes: 4056 bytes would be left over,
  yet nothing is split off, and the free-list head moves on to the block's
  successor. The next request of 8 bytes meets a block of size 0: nothing is left
  over, yet a new block is carved at \<open>0x10128\<close>, with the size \<open>0 - 8 - 16\<close>, which
  wraps around to \<open>2 ^ 64 - 24\<close>, and linked in as the head.
\<close>

theorem Allocate_split_inverted:
  "load64 constructed_heap (Block_size 0x10100) = Inr 4080 \<and>
   Allocate_split constructed_heap 8 0x10100 0x10110 = Inr (0x10110, constructed_heap) \<and>
   Pool_Allocate constructed_heap 0x10000 8 = Some (Inr (0x10110, after_alloc_a)) \<and>
   load64 after_alloc_a (freeListHead 0x10000) = Inr 0x10110 \<and>
   load64 after_alloc_a (Block_size 0x10110) = Inr 0 \<and>
   Allocate_split after_alloc_a 8 0x10110 0x10120 =
     Inr (0x10128, poke (poke after_alloc_a 0x10130 (- 24)) 0x10128 0) \<and>
   Pool_Allocate after_alloc_a 0x10000 8 = Some (Inr (0x10120, after_alloc_b)) \<and>
   load64 after_alloc_b (freeListHead 0x10000) = Inr 0x10128 \<and>
   load64 after_alloc_b (Block_size 0x10128) = Inr (- 24)"
proof -
  have "load64 constructed_heap (Block_size 0x10100) = Inr 4080"
    "Allocate_split constructed_heap 8 0x10100 0x10110 = Inr (0x10110, constructed_heap)"
    "load64 after_alloc_a (freeListHead 0x10000) = Inr 0x10110"
    "load64 after_alloc_a (Block_size 0x10110) = Inr 0"
    "Allocate_split after_alloc_a 8 0x10110 0x10120 =
       Inr (0x10128, poke (poke after_alloc_a 0x10130 (- 24)) 0x10128 0)"
    "load64 after_alloc_b (freeListHead 0x10000) = Inr 0x10128"
    "load64 after_alloc_b (Block_size 0x10128) = Inr (- 24)"
    by (simp_all add: pool_defs heap_defs run_simps)
  then show ?thesis by (simp add: run_alloc_a run_alloc_b)
qed

section \<open>C6: the pool after its constructor\<close>

text \<open>
  C6. The claim is that after construction the usable region, from the end of the
  pool's header on, is one free block, the head of a list that ends there. In the
  code the head is \<open>this + 256\<close> (\<^verbatim>\<open>this + sizeof(FreeListMemoryPool)\<close> counts in pool
  objects, not bytes) and not \<open>this + 16\<close>; the block's \<^verbatim>\<open>next\<close> is \<open>head + 16\<close>
  (\<^verbatim>\<open>freeListHead_ + 1\<close>) and not null, so the list has two blocks, the second one
  inside the payload of the first; the list ends with the value that also marks a
  block as occupied; and the block's 4080 bytes, from \<open>0x10110\<close> on, reach beyond the
  end of the mapping at \<open>0x11000\<close>: the last of them is not mapped.
\<close>

theorem FreeListMemoryPool_layout:
  "FreeListMemoryPool cfg_4048 fresh_heap 0x10000 = Inr constructed_heap \<and>
   load64 constructed_heap (freeListHead 0x10000) = Inr 0x10100 \<and>
   load64 constructed_heap (Block_size 0x10100) = Inr 4080 \<and>
   load64 constructed_heap (Block_next 0x10100) = Inr 0x10110 \<and>
   load64 constructed_heap (Block_next 0x10110) = Inr OCCUPIED_BLOCK \<and>
   free_list_path constructed_heap 0x10100 [0x10100, 0x10110] nullptr \<and>
   mapped constructed_heap (0x10000 + 4095) \<and>
   \<not> mapped constructed_heap (0x10000 + 4096) \<and>
   \<not> mapped constructed_heap (0x10100 + sizeof_Block + 4080 - 1)"
proof -
  have "load64 constructed_heap (freeListHead 0x10000) = Inr 0x10100"
    "load64 constructed_heap (Block_size 0x10100) = Inr 4080"
    "load64 constructed_heap (Block_next 0x10100) = Inr 0x10110"
    "load64 constructed_heap (Block_next 0x10110) = Inr OCCUPIED_BLOCK"
    "free_list_path constructed_heap 0x10100 [0x10100, 0x10110] nullptr"
    by (simp_all add: heap_defs run_simps)
  moreover have "mapped constructed_heap (0x10000 + 4095)"
    "\<not> mapped constructed_heap (0x10000 + 4096)"
    "\<not> mapped constructed_heap (0x10100 + sizeof_Block + 4080 - 1)"
    by (simp_all add: constructed_heap_def mapped_def in_region_def regions_poke regions_fresh_heap
        sizeof_Block_def)
  ultimately show ?thesis by (simp add: run_ctor)
qed

section \<open>C3: the allocator's Free\<close>

lemma Free_loop_nullptr: "Free_loop cfg h nullptr ptr = Some (Inr h)"
  by (subst Free_loop.simps) simp

text \<open>
  C3. The claim is that \<^verbatim>\<open>Free\<close> tests every pool from the head pool on, and frees
  a pointer of the first pool there. The loop advances (\<^verbatim>\<open>pool = pool->nextPool\<close>)
  before it tests, so the head pool is never tested, and the pool it tests last is
  the null pointer. With one pool, the pointer \<open>0x10110\<close> that the pool has handed
  out passes the pool's own \<^verbatim>\<open>VerifyPtr\<close>, the pool's \<^verbatim>\<open>Free\<close> would put it on the
  free list, and the allocator's \<^verbatim>\<open>Free\<close> leaves the heap as it is. The same on the
  allocator as constructed, for the address \<open>0x10010\<close>.
\<close>

theorem Free_skips_first_pool:
  "Pool_VerifyPtr cfg_4048 after_alloc_a 0x10000 0x10110 = Inr True \<and>
   Free cfg_4048 after_alloc_a allocator_0 0x10110 = Some (Inr after_alloc_a) \<and>
   Pool_Free cfg_4048 after_alloc_a 0x10000 0x10110 =
     Inr (poke (poke after_alloc_a 0x10110 0x10110) 0x10008 0x10110) \<and>
   Pool_VerifyPtr cfg_4048 fresh_heap 0x10000 0x10010 = Inr True \<and>
   Free cfg_4048 fresh_heap allocator_0 0x10010 = Some (Inr fresh_heap) \<and>
   Pool_Free cfg_4048 fresh_heap 0x10000 0x10010 = Inr after_pool_free \<and>
   peek fresh_heap (freeListHead 0x10000) = 0 \<and>
   peek after_pool_free (freeListHead 0x10000) = 0x10010"
proof -
  have verify: "Pool_VerifyPtr cfg_4048 after_alloc_a 0x10000 0x10110 = Inr True"
    "Pool_VerifyPtr cfg_4048 fresh_heap 0x10000 0x10010 = Inr True"
    by (simp_all add: pool_defs cap_4048 heap_defs run_simps)
  have pool_free: "Pool_Free cfg_4048 after_alloc_a 0x10000 0x10110 =
      Inr (poke (poke after_alloc_a 0x10110 0x10110) 0x10008 0x10110)"
    "Pool_Free cfg_4048 fresh_heap 0x10000 0x10010 = Inr after_pool_free"
    by (simp_all add: pool_defs cap_4048 heap_defs after_pool_free_def run_simps)
  have past_end: "Pool_VerifyPtr cfg_4048 after_alloc_a nullptr 0x10110 = Inr False"
    "Pool_VerifyPtr cfg_4048 fresh_heap nullptr 0x10010 = Inr False"
    by (simp_all add: pool_defs cap_4048 heap_defs run_simps)
  have nxt: "load64 after_alloc_a (nextPool 0x10000) = Inr nullptr"
    "load64 fresh_heap (nextPool 0x10000) = Inr nullptr"
    by (simp_all add: heap_defs run_simps)
  have free: "Free cfg_4048 after_alloc_a allocator_0 0x10110 = Some (Inr after_alloc_a)"
    "Free cfg_4048 fresh_heap allocator_0 0x10010 = Some (Inr fresh_heap)"
    by (simp_all add: Free_def allocator_0_def Free_loop.simps [of _ _ "0x10000"] nxt past_end
        Free_loop_nullptr)
  have "peek fresh_heap (freeListHead 0x10000) = 0"
    "peek after_pool_free (freeListHead 0x10000) = 0x10010"
    by (simp_all add: after_pool_free_def run_simps)
  with verify pool_free free show ?thesis by simp
qed

section \<open>C4: freeing what is already free\<close>

lemma not_mapped8_fresh_foreign: "\<not> mapped8 fresh_heap 0x20000"
  by (simp add: mapped8_def mapped_def in_region_def regions_fresh_heap)

text \<open>
  C4. The claim is that freeing a pointer that is already free, or a foreign address,
  changes nothing and never faults. After three allocations the free list is empty;
  \<^verbatim>\<open>Free(d)\<close> then stores the null head in \<^verbatim>\<open>d->next\<close>, which is also the mark of an
  occupied block, so a second \<^verbatim>\<open>Free(d)\<close> passes \<^verbatim>\<open>VerifyPtr\<close> and writes again:
  \<^verbatim>\<open>d->next\<close> becomes \<open>d\<close> itself. And \<^verbatim>\<open>Free\<close> of the unmapped foreign address
  \<open>0x20000\<close> faults, because \<^verbatim>\<open>VerifyPtr\<close> reads \<^verbatim>\<open>block->next\<close> before it compares
  the address with the pool's range.
\<close>

theorem Pool_Free_twice_changes_state:
  "Pool_Allocate constructed_heap 0x10000 8 = Some (Inr (0x10110, after_alloc_a)) \<and>
   Pool_Allocate after_alloc_a 0x10000 8 = Some (Inr (0x10120, after_alloc_b)) \<and>
   Pool_Allocate after_alloc_b 0x10000 8 = Some (Inr (0x10138, after_alloc_d)) \<and>
   Pool_Free cfg_4048 after_alloc_d 0x10000 0x10138 = Inr after_free_d \<and>
   Pool_Free cfg_4048 after_free_d 0x10000 0x10138 = Inr after_free_d_twice \<and>
   peek after_free_d (Block_next 0x10138) = 0 \<and>
   peek after_free_d_twice (Block_next 0x10138) = 0x10138 \<and>
   Pool_Free cfg_4048 after_alloc_d 0x10000 0x20000 = Inl SegFault"
proof -
  have "Pool_Free cfg_4048 after_alloc_d 0x10000 0x20000 = Inl SegFault"
    by (simp add: pool_defs heap_defs load64_def and_then_def mapped8_poke
        not_mapped8_fresh_foreign layout_defs)
  then show ?thesis
    by (simp add: run_alloc_a run_alloc_b run_alloc_d run_free_d run_free_d_twice run_peek_d
        Block_next_def)
qed

section \<open>C7: Allocate, VerifyPtr, Free, VerifyPtr\<close>

text \<open>
  C7. The claim is that \<^verbatim>\<open>VerifyPtr\<close> is true of a pointer just allocated and false
  after it is freed. \<^verbatim>\<open>VerifyPtr\<close> and \<^verbatim>\<open>Free\<close> take the pointer itself for the block
  header, which lies 16 bytes before it. After \<^verbatim>\<open>a = Allocate(8)\<close>,
  \<^verbatim>\<open>b = Allocate(8)\<close>, \<^verbatim>\<open>Free(b)\<close>, \<^verbatim>\<open>Free(a)\<close>, the call \<^verbatim>\<open>c = Allocate(8)\<close> returns
  \<open>0x10120\<close>, and \<^verbatim>\<open>VerifyPtr(c)\<close> is false. After \<^verbatim>\<open>a\<close>, \<^verbatim>\<open>b\<close> and
  \<^verbatim>\<open>d = Allocate(8)\<close>, the call \<^verbatim>\<open>Free(d)\<close> frees \<open>d\<close>, and \<^verbatim>\<open>VerifyPtr(d)\<close> is
  still true.
\<close>

theorem VerifyPtr_round_trip_fails:
  "Pool_Allocate constructed_heap 0x10000 8 = Some (Inr (0x10110, after_alloc_a)) \<and>
   Pool_Allocate after_alloc_a 0x10000 8 = Some (Inr (0x10120, after_alloc_b)) \<and>
   Pool_Free cfg_4048 after_alloc_b 0x10000 0x10120 = Inr after_free_b \<and>
   Pool_Free cfg_4048 after_free_b 0x10000 0x10110 = Inr after_free_a \<and>
   Pool_Allocate after_free_a 0x10000 8 = Some (Inr (0x10120, after_alloc_c)) \<and>
   Pool_VerifyPtr cfg_4048 after_alloc_c 0x10000 0x10120 = Inr False \<and>
   Pool_Allocate after_alloc_b 0x10000 8 = Some (Inr (0x10138, after_alloc_d)) \<and>
   Pool_Free cfg_4048 after_alloc_d 0x10000 0x10138 = Inr after_free_d \<and>
   Pool_VerifyPtr cfg_4048 after_free_d 0x10000 0x10138 = Inr True"
  by (simp add: run_alloc_a run_alloc_b run_free_b run_free_a run_alloc_c run_verify_c
      run_alloc_d run_free_d run_verify_d)

end
